theory Spec2Isabelle
  imports Main "HOL-Library.Word"
begin

unbundle bit_operations_syntax

section \<open>Bytes, strings and errors\<close>

text \<open>
  A Go \<open>byte\<close> is an 8-bit word. A Go \<open>string\<close> is a sequence of bytes and \<open>len\<close> counts
  bytes; an Isabelle \<open>char\<close> is one byte, so \<open>string\<close> models it and \<open>[]byte(s)\<close> is
  \<open>map of_char s\<close>.
\<close>

type_synonym byte = "8 word"

definition bytes_of_string :: "string \<Rightarrow> byte list" where
  "bytes_of_string s = map of_char s"

definition string_of_bytes :: "byte list \<Rightarrow> string" where
  "string_of_bytes bs = map (\<lambda>b. char_of (unat b)) bs"

text \<open>
  The error values that occur: the sentinels of package \<open>io\<close>, the error of a read at a
  negative offset, the three messages built by \<open>fmt.Errorf\<close> in \<open>Key.Object\<close> (each is
  determined by the class and the key name it formats), the \<open>reflect.ValueError\<close> that
  \<open>reflect.Value.Interface\<close> panics with on the zero \<open>Value\<close>, and any other error of a
  collaborator.
\<close>

datatype error =
    EOF
  | ErrUnexpectedEOF
  | ErrShortWrite
  | ErrNegativeOffset
  | ErrNoFactory string string
  | ErrNotObject string string
  | ErrNotUnmarshaler string string
  | ErrZeroValue
  | ErrOther string

typedecl any_value \<comment> \<open>a value of type \<open>interface{}\<close> held in a reference table\<close>

section \<open>Big-endian encoding (encoding/binary)\<close>

definition PutUint16 :: "16 word \<Rightarrow> byte list" where
  "PutUint16 v = [ucast (drop_bit 8 v), ucast v]"

definition PutUint32 :: "32 word \<Rightarrow> byte list" where
  "PutUint32 v = [ucast (drop_bit 24 v), ucast (drop_bit 16 v), ucast (drop_bit 8 v), ucast v]"

definition PutUint64 :: "64 word \<Rightarrow> byte list" where
  "PutUint64 v = [ucast (drop_bit 56 v), ucast (drop_bit 48 v), ucast (drop_bit 40 v),
                  ucast (drop_bit 32 v), ucast (drop_bit 24 v), ucast (drop_bit 16 v),
                  ucast (drop_bit 8 v), ucast v]"

text \<open>The unsigned number a byte sequence denotes in big-endian order.\<close>

definition be_nat :: "byte list \<Rightarrow> nat" where
  "be_nat bs = foldl (\<lambda>acc b. acc * 256 + unat b) 0 bs"

text \<open>\<open>binary.BigEndian.Uint16/32/64\<close>: the word a big-endian byte sequence decodes to.\<close>

definition be_word :: "byte list \<Rightarrow> 'a::len word" where
  "be_word bs = foldl (\<lambda>acc b. push_bit 8 acc OR ucast b) 0 bs"

section \<open>The write buffer (rootio/wbuffer.go)\<close>

text \<open>
  The sink \<open>w\<close> is an \<open>io.Writer\<close> interface value: a state together with its \<open>Write\<close>
  method. \<open>Write\<close> returns a byte count, which every caller here discards, and an error.
\<close>

record 's WBuffer =
  w :: 's
  w_Write :: "'s \<Rightarrow> byte list \<Rightarrow> error option \<times> 's"
  err :: "error option"
  offset :: "32 word"
  refs :: "64 word \<Rightarrow> any_value option"

text \<open>\<open>bytes.Buffer.Write\<close> appends and never fails.\<close>

definition bytes_Buffer_Write :: "byte list \<Rightarrow> byte list \<Rightarrow> error option \<times> byte list" where
  "bytes_Buffer_Write s p = (None, s @ p)"

definition NewWBufferFrom ::
  "'s \<Rightarrow> ('s \<Rightarrow> byte list \<Rightarrow> error option \<times> 's) \<Rightarrow> (64 word \<Rightarrow> any_value option) option
     \<Rightarrow> 32 word \<Rightarrow> 's WBuffer" where
  "NewWBufferFrom s wr rs off =
     \<lparr>w = s, w_Write = wr, err = None, offset = off,
      refs = (case rs of None \<Rightarrow> Map.empty | Some m \<Rightarrow> m)\<rparr>"

definition NewWBuffer ::
  "byte list \<Rightarrow> (64 word \<Rightarrow> any_value option) option \<Rightarrow> 32 word \<Rightarrow> byte list WBuffer" where
  "NewWBuffer data rs off =
     \<lparr>w = data, w_Write = bytes_Buffer_Write, err = None, offset = off,
      refs = (case rs of None \<Rightarrow> Map.empty | Some m \<Rightarrow> m)\<rparr>"

definition Err :: "'s WBuffer \<Rightarrow> error option" where
  "Err b = err b"

text \<open>\<open>_, w.err = w.w.Write(p)\<close>: the sink moves on and the error slot takes the result.\<close>

definition sink_Write :: "byte list \<Rightarrow> 's WBuffer \<Rightarrow> 's WBuffer" where
  "sink_Write p b = (case w_Write b (w b) p of (e, s') \<Rightarrow> b\<lparr>w := s', err := e\<rparr>)"

text \<open>The method \<open>write\<close>; the name is a keyword of Isabelle, hence the suffix.\<close>

definition write_raw :: "byte list \<Rightarrow> 's WBuffer \<Rightarrow> 's WBuffer" where
  "write_raw p b = (if err b \<noteq> None then b else sink_Write p b)"

definition WriteI8 :: "8 word \<Rightarrow> 's WBuffer \<Rightarrow> 's WBuffer" where
  "WriteI8 v b = (if err b \<noteq> None then b else sink_Write [v] b)"

definition WriteI16 :: "16 word \<Rightarrow> 's WBuffer \<Rightarrow> 's WBuffer" where
  "WriteI16 v b = (if err b \<noteq> None then b else sink_Write (PutUint16 v) b)"

definition WriteI32 :: "32 word \<Rightarrow> 's WBuffer \<Rightarrow> 's WBuffer" where
  "WriteI32 v b = (if err b \<noteq> None then b else sink_Write (PutUint32 v) b)"

definition WriteI64 :: "64 word \<Rightarrow> 's WBuffer \<Rightarrow> 's WBuffer" where
  "WriteI64 v b = (if err b \<noteq> None then b else sink_Write (PutUint64 v) b)"

definition WriteU8 :: "8 word \<Rightarrow> 's WBuffer \<Rightarrow> 's WBuffer" where
  "WriteU8 v b = (if err b \<noteq> None then b else sink_Write [v] b)"

definition WriteU16 :: "16 word \<Rightarrow> 's WBuffer \<Rightarrow> 's WBuffer" where
  "WriteU16 v b = (if err b \<noteq> None then b else sink_Write (PutUint16 v) b)"

definition WriteU32 :: "32 word \<Rightarrow> 's WBuffer \<Rightarrow> 's WBuffer" where
  "WriteU32 v b = (if err b \<noteq> None then b else sink_Write (PutUint32 v) b)"

definition WriteU64 :: "64 word \<Rightarrow> 's WBuffer \<Rightarrow> 's WBuffer" where
  "WriteU64 v b = (if err b \<noteq> None then b else sink_Write (PutUint64 v) b)"

text \<open>
  A \<open>float32\<close> or \<open>float64\<close> is represented by its IEEE-754 bit pattern, which is what
  \<open>math.Float32bits\<close> and \<open>math.Float64bits\<close> return.
\<close>

type_synonym float32 = "32 word"
type_synonym float64 = "64 word"

definition Float32bits :: "float32 \<Rightarrow> 32 word" where
  "Float32bits v = v"

definition Float64bits :: "float64 \<Rightarrow> 64 word" where
  "Float64bits v = v"

definition WriteF32 :: "float32 \<Rightarrow> 's WBuffer \<Rightarrow> 's WBuffer" where
  "WriteF32 v b = (if err b \<noteq> None then b else sink_Write (PutUint32 (Float32bits v)) b)"

definition WriteF64 :: "float64 \<Rightarrow> 's WBuffer \<Rightarrow> 's WBuffer" where
  "WriteF64 v b = (if err b \<noteq> None then b else sink_Write (PutUint64 (Float64bits v)) b)"

text \<open>
  \<open>WriteString\<close>: the \<open>switch\<close> writes the length prefix, the \<open>if\<close> adds a second zero byte
  for the empty string, then the bytes of the string follow. \<open>uint32(len(s))\<close> and
  \<open>uint8(len(s))\<close> truncate, which \<open>of_nat\<close> into a word does.
\<close>

definition WriteString :: "string \<Rightarrow> 's WBuffer \<Rightarrow> 's WBuffer" where
  "WriteString s b =
     (if err b \<noteq> None then b
      else
        let b1 = (if length s > 254
                  then WriteU32 (of_nat (length s)) (WriteU8 255 b)
                  else WriteU8 (of_nat (length s)) b);
            b2 = (if s = [] then WriteU8 0 b1 else b1)
        in write_raw (bytes_of_string s) b2)"

text \<open>A call of one write primitive, and a sequence of calls on one buffer.\<close>

datatype wcall =
    CallString string
  | CallI8 "8 word" | CallI16 "16 word" | CallI32 "32 word" | CallI64 "64 word"
  | CallU8 "8 word" | CallU16 "16 word" | CallU32 "32 word" | CallU64 "64 word"
  | CallF32 float32 | CallF64 float64

fun call :: "wcall \<Rightarrow> 's WBuffer \<Rightarrow> 's WBuffer" where
  "call (CallString s) b = WriteString s b"
| "call (CallI8 v) b = WriteI8 v b"
| "call (CallI16 v) b = WriteI16 v b"
| "call (CallI32 v) b = WriteI32 v b"
| "call (CallI64 v) b = WriteI64 v b"
| "call (CallU8 v) b = WriteU8 v b"
| "call (CallU16 v) b = WriteU16 v b"
| "call (CallU32 v) b = WriteU32 v b"
| "call (CallU64 v) b = WriteU64 v b"
| "call (CallF32 v) b = WriteF32 v b"
| "call (CallF64 v) b = WriteF64 v b"

fun calls :: "wcall list \<Rightarrow> 's WBuffer \<Rightarrow> 's WBuffer" where
  "calls [] b = b"
| "calls (c # cs) b = calls cs (call c b)"

text \<open>A sink with room for a fixed number of bytes: a write beyond it is cut short.\<close>

definition bounded_Write :: "nat \<Rightarrow> byte list \<Rightarrow> byte list \<Rightarrow> error option \<times> byte list" where
  "bounded_Write cap s p =
     (if length s + length p \<le> cap then (None, s @ p)
      else (Some ErrShortWrite, s @ take (cap - length s) p))"

section \<open>The read buffer\<close>

text \<open>
  Modelled from the spec: the read buffer \<open>RBuffer\<close> (its source file is not among the
  sources; \<open>Key.UnmarshalROOT\<close> and \<open>Key.Object\<close> use it). The spec gives it a byte source,
  a cursor that advances by exactly the bytes consumed, a sticky error slot, an offset bias
  and a reference table; every multi-byte primitive is big-endian; once a read fails the
  error is recorded and every later read returns the zero value of its type without
  touching the source. The failing read itself is taken to return the zero value, to
  leave the cursor where it was and to record \<open>io.EOF\<close> when nothing is left and
  \<open>io.ErrUnexpectedEOF\<close> otherwise; the spec does not fix these, and the general theorems
  below do not depend on them.
\<close>

record RBuffer =
  r_data :: "byte list"
  r_pos :: nat
  r_err :: "error option"
  r_offset :: "32 word"
  r_refs :: "64 word \<Rightarrow> any_value option"

text \<open>
  Modelled from the spec: the constructor of the read buffer and its method \<open>Err\<close>
  (not among the sources): a fresh buffer over the given bytes, with the cursor at the
  start and the error slot empty.
\<close>

definition NewRBuffer ::
  "byte list \<Rightarrow> (64 word \<Rightarrow> any_value option) option \<Rightarrow> 32 word \<Rightarrow> RBuffer" where
  "NewRBuffer data rs off =
     \<lparr>r_data = data, r_pos = 0, r_err = None, r_offset = off,
      r_refs = (case rs of None \<Rightarrow> Map.empty | Some m \<Rightarrow> m)\<rparr>"

definition RBuffer_Err :: "RBuffer \<Rightarrow> error option" where
  "RBuffer_Err r = r_err r"

text \<open>
  Modelled from the spec: the read primitives of the read buffer (not among the sources).
  \<open>read_n\<close> takes the next \<open>n\<close> bytes; the fixed-width primitives decode them in
  big-endian order; \<open>ReadString\<close> reads one length byte, or after the sentinel 255 a
  4-byte unsigned length, and then that many bytes.
\<close>

definition read_n :: "nat \<Rightarrow> RBuffer \<Rightarrow> byte list option \<times> RBuffer" where
  "read_n n r =
     (if r_err r \<noteq> None then (None, r)
      else if r_pos r + n \<le> length (r_data r)
      then (Some (take n (drop (r_pos r) (r_data r))), r\<lparr>r_pos := r_pos r + n\<rparr>)
      else (None, r\<lparr>r_err := Some (if length (r_data r) \<le> r_pos r then EOF
                                    else ErrUnexpectedEOF)\<rparr>))"

definition read_word :: "nat \<Rightarrow> RBuffer \<Rightarrow> 'a::len word \<times> RBuffer" where
  "read_word n r = (case read_n n r of (None, r') \<Rightarrow> (0, r') | (Some bs, r') \<Rightarrow> (be_word bs, r'))"

definition ReadU8 :: "RBuffer \<Rightarrow> 8 word \<times> RBuffer" where
  "ReadU8 r = read_word 1 r"

definition ReadI16 :: "RBuffer \<Rightarrow> 16 word \<times> RBuffer" where
  "ReadI16 r = read_word 2 r"

definition ReadI32 :: "RBuffer \<Rightarrow> 32 word \<times> RBuffer" where
  "ReadI32 r = read_word 4 r"

definition ReadU32 :: "RBuffer \<Rightarrow> 32 word \<times> RBuffer" where
  "ReadU32 r = read_word 4 r"

definition ReadI64 :: "RBuffer \<Rightarrow> 64 word \<times> RBuffer" where
  "ReadI64 r = read_word 8 r"

definition ReadString :: "RBuffer \<Rightarrow> string \<times> RBuffer" where
  "ReadString r =
     (case ReadU8 r of (n8, r1) \<Rightarrow>
        (case (if n8 = 255 then (case ReadU32 r1 of (n32, r2) \<Rightarrow> (unat n32, r2))
               else (unat n8, r1)) of
           (n, r2) \<Rightarrow>
             (case read_n n r2 of
                (None, r3) \<Rightarrow> ([], r3)
              | (Some bs, r3) \<Rightarrow> (string_of_bytes bs, r3))))"

section \<open>The file and the readers of package io\<close>

text \<open>
  Modelled from the spec: the file handle (its source file is not among the sources). The
  spec asks of it only random access to byte ranges, so a file is its content, and
  \<open>ReadAt\<close> follows the contract of \<open>io.ReaderAt\<close>: it returns fewer bytes than asked for
  only together with an error.
\<close>

record File =
  content :: "byte list"

definition File_ReadAt :: "File \<Rightarrow> nat \<Rightarrow> int \<Rightarrow> byte list \<times> error option" where
  "File_ReadAt fl m off =
     (if off < 0 then ([], Some ErrNegativeOffset)
      else if int (length (content fl)) \<le> off then ([], Some EOF)
      else (let bs = take m (drop (nat off) (content fl))
            in (bs, if length bs < m then Some EOF else None)))"

text \<open>
  \<open>io.SectionReader\<close>: \<open>NewSectionReader r off n\<close> is \<open>SectionReader{r, off, off, off + n}\<close>,
  the sum taken in \<open>int64\<close>. \<open>Read\<close> stops at the limit, cuts the request down to the
  window, reads at the current offset and advances by what it got.
\<close>

record SectionReader =
  sr_r :: File
  sr_base :: int
  sr_off :: int
  sr_limit :: int

definition NewSectionReader :: "File \<Rightarrow> 64 word \<Rightarrow> 64 word \<Rightarrow> SectionReader" where
  "NewSectionReader r off n =
     \<lparr>sr_r = r, sr_base = sint off, sr_off = sint off, sr_limit = sint (off + n)\<rparr>"

definition SectionReader_Read ::
  "SectionReader \<Rightarrow> nat \<Rightarrow> (byte list \<times> error option) \<times> SectionReader" where
  "SectionReader_Read s m =
     (if sr_limit s \<le> sr_off s then (([], Some EOF), s)
      else
        (let m' = (if int m > sr_limit s - sr_off s then nat (sr_limit s - sr_off s) else m)
         in case File_ReadAt (sr_r s) m' (sr_off s) of
              (bs, e) \<Rightarrow> ((bs, e), s\<lparr>sr_off := sr_off s + int (length bs)\<rparr>)))"

text \<open>
  \<open>io.ReadFull r buf\<close> is \<open>io.ReadAtLeast r buf (len buf)\<close>: the loop
  \<open>for n < min && err == nil { nn, err = r.Read(buf[n:]); n += nn }\<close>, then the error is
  dropped when the buffer is full and an \<open>EOF\<close> after some bytes becomes
  \<open>ErrUnexpectedEOF\<close>.
\<close>

function ReadFull_loop ::
  "SectionReader \<Rightarrow> byte list \<Rightarrow> nat \<Rightarrow> error option
     \<Rightarrow> (nat \<times> error option) \<times> byte list \<times> SectionReader" where
  "ReadFull_loop s buf n e =
     (if n < length buf \<and> e = None
      then (case SectionReader_Read s (length buf - n) of
              ((bs, e'), s') \<Rightarrow>
                ReadFull_loop s' (take n buf @ bs @ drop (n + length bs) buf) (n + length bs) e')
      else ((n, e), buf, s))"
  by pat_completeness auto
termination
  apply (relation "measure (\<lambda>(s, buf, n, e). if e = None then Suc (length buf - n) else 0)")
   apply simp
  apply (auto simp: SectionReader_Read_def File_ReadAt_def Let_def split: if_splits)
  done

declare ReadFull_loop.simps [simp del]

definition ReadFull :: "SectionReader \<Rightarrow> byte list \<Rightarrow> (nat \<times> error option) \<times> byte list" where
  "ReadFull r buf =
     (case ReadFull_loop r buf 0 None of
        ((n, e), buf', r') \<Rightarrow>
          (if length buf \<le> n then ((n, None), buf')
           else if 0 < n \<and> e = Some EOF then ((n, Some ErrUnexpectedEOF), buf')
           else ((n, e), buf')))"

text \<open>
  Package \<open>compress/zlib\<close> is a collaborator, taken as a parameter: \<open>NewReader\<close> on the
  section, which may fail on the stream header, and what \<open>io.ReadFull\<close> makes of the
  reader it returns on a buffer that is not empty: the buffer filled, or an error.
  On an empty buffer \<open>io.ReadFull\<close> returns at once, without a read and without error.
\<close>

record 'rc zlib =
  zlib_NewReader :: "SectionReader \<Rightarrow> error + 'rc"
  zlib_ReadFull :: "'rc \<Rightarrow> byte list \<Rightarrow> error + byte list"

definition ReadFull_zlib :: "'rc zlib \<Rightarrow> 'rc \<Rightarrow> byte list \<Rightarrow> error + byte list" where
  "ReadFull_zlib z rc buf = (if buf = [] then Inr buf else zlib_ReadFull z rc buf)"

section \<open>The record header \<open>Key\<close>\<close>

text \<open>
  The struct \<open>Key\<close>. The field \<open>class\<close> is \<open>klass\<close> here (\<open>class\<close> is a keyword of
  Isabelle). \<open>datetime\<close> has the type of \<open>time.Time\<close>, a parameter, as \<open>datime2time\<close> is not
  among the sources. \<open>obj\<close> is \<open>None\<close> for the nil interface.
\<close>

record ('t, 'o) Key =
  f :: File
  bytes :: "32 word"
  version :: "16 word"
  objlen :: "32 word"
  datetime :: 't
  keylen :: "32 word"
  cycle :: "16 word"
  seekkey :: "64 word"
  seekpdir :: "64 word"
  klass :: string
  name :: string
  title :: string
  obj :: "'o option"

definition Class :: "('t, 'o) Key \<Rightarrow> string" where
  "Class k = klass k"

definition Name :: "('t, 'o) Key \<Rightarrow> string" where
  "Name k = name k"

definition Title :: "('t, 'o) Key \<Rightarrow> string" where
  "Title k = title k"

definition Cycle :: "('t, 'o) Key \<Rightarrow> int" where
  "Cycle k = sint (cycle k)"

text \<open>\<open>k.objlen != k.bytes-k.keylen\<close>, in \<open>int32\<close>.\<close>

definition isCompressed :: "('t, 'o) Key \<Rightarrow> bool" where
  "isCompressed k = (objlen k \<noteq> bytes k - keylen k)"

text \<open>
  \<open>load\<close>: the buffer is replaced by a fresh one of \<open>objlen\<close> bytes when it is shorter;
  a compressed payload is read through zlib from the section after the 9-byte compression
  header, an uncompressed one straight from the section after the key.
\<close>

definition load :: "'rc zlib \<Rightarrow> byte list \<Rightarrow> ('t, 'o) Key \<Rightarrow> error + byte list" where
  "load z buf0 k =
     (let buf = (if int (length buf0) < sint (objlen k)
                 then replicate (nat (sint (objlen k))) 0 else buf0)
      in if isCompressed k
         then
           (let start = seekkey k + scast (keylen k) + 9;
                r = NewSectionReader (f k) start (scast (bytes k) - scast (keylen k))
            in case zlib_NewReader z r of
                 Inl e \<Rightarrow> Inl e
               | Inr rc \<Rightarrow>
                   (case ReadFull_zlib z rc buf of
                      Inl e \<Rightarrow> Inl e
                    | Inr buf' \<Rightarrow> Inr buf'))
         else
           (let start = seekkey k + scast (keylen k);
                r = NewSectionReader (f k) start (scast (bytes k))
            in case ReadFull r buf of
                 ((n, Some e), buf') \<Rightarrow> Inl e
               | ((n, None), buf') \<Rightarrow> Inr buf'))"

definition Bytes :: "'rc zlib \<Rightarrow> ('t, 'o) Key \<Rightarrow> error + byte list" where
  "Bytes z k = (case load z [] k of Inl e \<Rightarrow> Inl e | Inr data \<Rightarrow> Inr data)"

text \<open>
  Modelled from the spec: the class registry \<open>Factory\<close> (not among the sources), a mapping
  from a class name to a constructor without arguments, whose lookup \<open>Get\<close> gives nothing
  for an absent name. The constructor returns a \<open>reflect.Value\<close>; \<open>IsValid\<close> tells whether
  it is not the zero \<open>Value\<close>. The other fields of this record are parameters: the type
  assertions of \<open>Object\<close> on the constructed value, whose types are not among the sources
  either. Each gives \<open>None\<close> when the assertion fails and otherwise the method the code
  then calls, which returns the object as the call left it (the object is a pointer in
  the source). \<open>as_tdirectory\<close> is \<open>dir.file = k.f\<close> followed by \<open>dir.readKeys()\<close>.
  The constructor and these methods are taken to return.
\<close>

record ('v, 'o) runtime =
  Factory_Get :: "string \<Rightarrow> (unit \<Rightarrow> 'v) option"
  IsValid :: "'v \<Rightarrow> bool"
  as_Object :: "'v \<Rightarrow> 'o option"
  as_ROOTUnmarshaler :: "'o \<Rightarrow> (RBuffer \<Rightarrow> error option \<times> 'o) option"
  as_SetFiler :: "'o \<Rightarrow> (File \<Rightarrow> 'o) option"
  as_tdirectory :: "'o \<Rightarrow> (File \<Rightarrow> error option \<times> 'o) option"

text \<open>A call either returns or panics; a panic carries the value it was raised with.\<close>

datatype 'a outcome = Returned 'a | Panicked error

text \<open>
  \<open>Object\<close> gives its outcome and the key, whose \<open>obj\<close> it sets on success. It returns an
  object or an error, or it panics: \<open>v.Interface()\<close> panics when the constructor has
  returned the zero \<open>Value\<close>.
\<close>

definition Object ::
  "('v, 'o) runtime \<Rightarrow> 'rc zlib \<Rightarrow> ('t, 'o) Key \<Rightarrow> (error + 'o) outcome \<times> ('t, 'o) Key" where
  "Object rt z k =
     (case obj k of
        Some ob \<Rightarrow> (Returned (Inr ob), k)
      | None \<Rightarrow>
         (case Bytes z k of
            Inl e \<Rightarrow> (Returned (Inl e), k)
          | Inr buf \<Rightarrow>
             (case Factory_Get rt (Class k) of
                None \<Rightarrow> (Returned (Inl (ErrNoFactory (Class k) (Name k))), k)
              | Some fct \<Rightarrow>
                 (let v = fct ()
                  in if \<not> IsValid rt v then (Panicked ErrZeroValue, k)
                     else
                       (case as_Object rt v of
                          None \<Rightarrow> (Returned (Inl (ErrNotObject (Class k) (Name k))), k)
                        | Some ob \<Rightarrow>
                           (case as_ROOTUnmarshaler rt ob of
                              None \<Rightarrow>
                                (Returned (Inl (ErrNotUnmarshaler (Class k) (Name k))), k)
                            | Some unmarshal \<Rightarrow>
                               (case unmarshal (NewRBuffer buf None (keylen k)) of
                                  (Some e, ob1) \<Rightarrow> (Returned (Inl e), k)
                                | (None, ob1) \<Rightarrow>
                                   (let ob2 = (case as_SetFiler rt ob1 of
                                                 Some SetFile \<Rightarrow> SetFile (f k)
                                               | None \<Rightarrow> ob1)
                                    in case as_tdirectory rt ob2 of
                                         Some readKeys \<Rightarrow>
                                           (case readKeys (f k) of
                                              (Some e, ob3) \<Rightarrow> (Returned (Inl e), k)
                                            | (None, ob3) \<Rightarrow>
                                                (Returned (Inr ob3), k\<lparr>obj := Some ob3\<rparr>))
                                       | None \<Rightarrow>
                                           (Returned (Inr ob2), k\<lparr>obj := Some ob2\<rparr>)))))))))"

text \<open>
  \<open>Value\<close> returns the object, or panics: with the error of \<open>Object\<close> (\<open>panic(err)\<close>), or
  because \<open>Object\<close> has panicked.
\<close>

definition Value ::
  "('v, 'o) runtime \<Rightarrow> 'rc zlib \<Rightarrow> ('t, 'o) Key \<Rightarrow> 'o outcome \<times> ('t, 'o) Key" where
  "Value rt z k =
     (case Object rt z k of
        (Panicked e, k') \<Rightarrow> (Panicked e, k')
      | (Returned (Inl e), k') \<Rightarrow> (Panicked e, k')
      | (Returned (Inr v), k') \<Rightarrow> (Returned v, k'))"

text \<open>
  \<open>UnmarshalROOT\<close> returns the error, the read buffer and the key as the call leaves them.
  \<open>datime2time\<close> is a parameter. The calls of \<open>myprintf\<close> print and change nothing.
\<close>

definition UnmarshalROOT ::
  "(32 word \<Rightarrow> 't) \<Rightarrow> RBuffer \<Rightarrow> ('t, 'o) Key \<Rightarrow> error option \<times> RBuffer \<times> ('t, 'o) Key" where
  "UnmarshalROOT datime2time r k =
     (case RBuffer_Err r of
        Some e \<Rightarrow> (Some e, r, k)
      | None \<Rightarrow>
         (case ReadI32 r of (v_bytes, r1) \<Rightarrow>
            if sint v_bytes < 0
            then (None, r1, k\<lparr>bytes := v_bytes, klass := ''[GAP]''\<rparr>)
            else
              (case ReadI16 r1 of (v_version, r2) \<Rightarrow>
               case ReadI32 r2 of (v_objlen, r3) \<Rightarrow>
               case ReadU32 r3 of (v_datime, r4) \<Rightarrow>
               case ReadI16 r4 of (v_keylen, r5) \<Rightarrow>
               case ReadI16 r5 of (v_cycle, r6) \<Rightarrow>
               case (if 1000 < sint v_version
                     then (case ReadI64 r6 of (a, r7) \<Rightarrow>
                           case ReadI64 r7 of (b, r8) \<Rightarrow> (a, b, r8))
                     else (case ReadI32 r6 of (a, r7) \<Rightarrow>
                           case ReadI32 r7 of (b, r8) \<Rightarrow> (scast a, scast b, r8)))
               of (v_seekkey, v_seekpdir, r8) \<Rightarrow>
               case ReadString r8 of (v_class, r9) \<Rightarrow>
               case ReadString r9 of (v_name, r10) \<Rightarrow>
               case ReadString r10 of (v_title, r11) \<Rightarrow>
                 (RBuffer_Err r11, r11,
                  k\<lparr>bytes := v_bytes, version := v_version, objlen := v_objlen,
                    datetime := datime2time v_datime, keylen := scast v_keylen,
                    cycle := v_cycle, seekkey := v_seekkey, seekpdir := v_seekpdir,
                    klass := v_class, name := v_name, title := v_title\<rparr>))))"

section \<open>Inputs for evaluation\<close>

text \<open>
  The zero value \<open>Key{}\<close> on an empty file. For evaluation the time is represented by
  the datime word it is computed from, and an object by a number.
\<close>

definition Key0 :: "(32 word, nat) Key" where
  "Key0 = \<lparr>f = \<lparr>content = []\<rparr>, bytes = 0, version = 0, objlen = 0, datetime = 0, keylen = 0,
           cycle = 0, seekkey = 0, seekpdir = 0, klass = [], name = [], title = [],
           obj = None\<rparr>"

text \<open>
  Three headers with total length 64, uncompressed length 10, header length 54 and cycle 1,
  of versions 1500, 500 and 1000; the strings \<open>A\<close>, \<open>B\<close> and \<open>C\<close> follow the offsets.
\<close>

definition header_v1500 :: "byte list" where
  "header_v1500 = [0,0,0,64, 5,220, 0,0,0,10, 0,0,0,0, 0,54, 0,1,
                   0,0,0,0,0,0,1,0, 0,0,0,0,0,0,2,0, 1,65, 1,66, 1,67]"

definition header_v500 :: "byte list" where
  "header_v500 = [0,0,0,64, 1,244, 0,0,0,10, 0,0,0,0, 0,54, 0,1,
                  255,255,255,254, 0,0,2,0, 1,65, 1,66, 1,67]"

definition header_v1000 :: "byte list" where
  "header_v1000 = [0,0,0,64, 3,232, 0,0,0,10, 0,0,0,0, 0,54, 0,1,
                   0,0,0,0,0,0,1,0, 0,0,0,0,0,0,2,0, 1,65, 1,66, 1,67]"

text \<open>
  Two files, and three keys of class \<open>T\<close> or \<open>U\<close>: \<open>key_plain\<close> is not compressed
  (\<open>6 = 10 - 4\<close>), \<open>key_packed\<close> is (\<open>5 \<noteq> 20 - 4\<close>), and \<open>key_lost\<close> is a key like
  \<open>key_plain\<close> whose file is empty.
\<close>

definition file10 :: File where
  "file10 = \<lparr>content = [0,1,2,3,4,5,6,7,8,9]\<rparr>"

definition file20 :: File where
  "file20 = \<lparr>content = [0,1,2,3,4,5,6,7,8,9,10,11,12,13,14,15,16,17,18,19]\<rparr>"

definition key_plain :: "(32 word, nat) Key" where
  "key_plain = Key0\<lparr>f := file10, bytes := 10, objlen := 6, keylen := 4,
                   klass := ''T'', name := ''n''\<rparr>"

definition key_packed :: "(32 word, nat) Key" where
  "key_packed = Key0\<lparr>f := file20, bytes := 20, objlen := 5, keylen := 4,
                    klass := ''T'', name := ''p''\<rparr>"

definition key_lost :: "(32 word, nat) Key" where
  "key_lost = Key0\<lparr>bytes := 10, objlen := 6, keylen := 4, klass := ''U'', name := ''l''\<rparr>"

text \<open>
  Two stand-ins for zlib: one passes the bytes of the section through unchanged, the other
  rejects every stream.
\<close>

definition zlib_stored :: "SectionReader zlib" where
  "zlib_stored =
     \<lparr>zlib_NewReader = Inr,
      zlib_ReadFull = (\<lambda>rc buf. case ReadFull rc buf of
                                   ((n, Some e), buf') \<Rightarrow> Inl e
                                 | ((n, None), buf') \<Rightarrow> Inr buf')\<rparr>"

definition zlib_broken :: "SectionReader zlib" where
  "zlib_broken =
     \<lparr>zlib_NewReader = (\<lambda>r. Inl (ErrOther ''zlib: invalid header'')),
      zlib_ReadFull = (\<lambda>rc buf. Inl (ErrOther ''zlib: invalid header''))\<rparr>"

text \<open>
  Four registries: an empty one; one where the class \<open>T\<close> is registered, an object of
  class \<open>T\<close> decoding itself by reading one byte; one where the constructor of \<open>T\<close>
  returns the zero \<open>Value\<close>; and one where the objects of class \<open>T\<close> are directories
  whose keys cannot be read.
\<close>

definition rt_none :: "(nat, nat) runtime" where
  "rt_none =
     \<lparr>Factory_Get = (\<lambda>c. None), IsValid = (\<lambda>v. True), as_Object = Some,
      as_ROOTUnmarshaler = (\<lambda>ob. None), as_SetFiler = (\<lambda>ob. None),
      as_tdirectory = (\<lambda>ob. None)\<rparr>"

definition rt_T :: "(nat, nat) runtime" where
  "rt_T =
     \<lparr>Factory_Get = (\<lambda>c. if c = ''T'' then Some (\<lambda>u. 0) else None),
      IsValid = (\<lambda>v. True), as_Object = Some,
      as_ROOTUnmarshaler =
        (\<lambda>ob. Some (\<lambda>r. case ReadU8 r of (v, r') \<Rightarrow> (RBuffer_Err r', unat v))),
      as_SetFiler = (\<lambda>ob. None),
      as_tdirectory = (\<lambda>ob. None)\<rparr>"

definition rt_zero :: "(nat, nat) runtime" where
  "rt_zero = rt_T\<lparr>IsValid := (\<lambda>v. False)\<rparr>"

definition rt_dir :: "(nat, nat) runtime" where
  "rt_dir = rt_T\<lparr>as_tdirectory := (\<lambda>ob. Some (\<lambda>fl. (Some (ErrOther ''readKeys''), ob)))\<rparr>"

text \<open>
  A key of class \<open>T\<close> with an empty payload, a key like \<open>key_plain\<close> at the largest
  offset, and the first 20 bytes of \<open>header_v500\<close>.
\<close>

definition key_empty :: "(32 word, nat) Key" where
  "key_empty = Key0\<lparr>f := file10, bytes := 4, objlen := 0, keylen := 4,
                   klass := ''T'', name := ''e''\<rparr>"

definition key_far :: "(32 word, nat) Key" where
  "key_far = key_plain\<lparr>seekkey := 9223372036854775807\<rparr>"


section \<open>Properties of the write buffer\<close>

lemmas write_prims =
  write_raw_def WriteI8_def WriteI16_def WriteI32_def WriteI64_def
  WriteU8_def WriteU16_def WriteU32_def WriteU64_def WriteF32_def WriteF64_def
  WriteString_def

lemma call_on_failed_buffer: "err b = Some e \<Longrightarrow> call c b = b"
  by (cases c) (simp_all add: write_prims)

lemma calls_on_failed_buffer: "err b = Some e \<Longrightarrow> calls cs b = b"
  by (induction cs arbitrary: b) (simp_all add: call_on_failed_buffer)

lemma split_byte: "(y::nat) div 256 * 256 + y mod 256 = y"
  by simp

lemma length_PutUint32: "length (PutUint32 v) = 4"
  by (simp add: PutUint32_def)

lemma be_nat_PutUint32: "be_nat (PutUint32 v) = unat v"
proof -
  define x where "x = unat v"
  have lt: "x < 2 ^ 32"
    unfolding x_def using unsigned_less [of v] by simp
  have d3: "x div 16777216 = x div 65536 div 256"
    by (simp add: div_mult2_eq [symmetric])
  have d2: "x div 65536 = x div 256 div 256"
    by (simp add: div_mult2_eq [symmetric])
  have small: "x div 16777216 mod 256 = x div 16777216"
    using lt by simp
  have "be_nat (PutUint32 v) =
      ((x div 16777216 mod 256 * 256 + x div 65536 mod 256) * 256 + x div 256 mod 256) * 256
        + x mod 256"
    by (simp add: be_nat_def PutUint32_def unsigned_ucast_eq unat_drop_bit_eq drop_bit_eq_div
        take_bit_eq_mod x_def unat_div)
  also have "\<dots> =
      ((x div 65536 div 256 * 256 + x div 65536 mod 256) * 256 + x div 256 mod 256) * 256
        + x mod 256"
    using small d3 by simp
  also have "\<dots> = (x div 256 div 256 * 256 + x div 256 mod 256) * 256 + x mod 256"
    by (simp only: split_byte d2)
  also have "\<dots> = x"
    by (simp only: split_byte)
  finally show ?thesis by (simp add: x_def)
qed

lemma be_nat_length_prefix:
  "be_nat (PutUint32 (of_nat (length (s::string)))) = length s mod 2 ^ 32"
  by (simp add: be_nat_PutUint32 unat_of_nat)

lemma WriteString_on_bytes_Buffer:
  assumes "err b = None" and "w_Write b = bytes_Buffer_Write"
  shows "err (WriteString s b) = None"
    and "w (WriteString s b) = w b @
           (if length s > 254 then 255 # PutUint32 (of_nat (length s)) @ bytes_of_string s
            else if s \<noteq> [] then of_nat (length s) # bytes_of_string s
            else [0, 0])"
  using assms
  by (simp_all add: WriteString_def write_prims sink_Write_def bytes_Buffer_Write_def
      bytes_of_string_def Let_def)

text \<open>
  C3. On a buffer whose error slot is empty and whose sink is a \<open>bytes.Buffer\<close> (the sink
  of \<open>NewWBuffer\<close>, which accepts every write), \<open>WriteString s\<close> leaves the error slot
  empty and appends to the sink:
  for a string of more than 254 bytes, the byte 255, then the four bytes
  \<open>PutUint32 (uint32 (len s))\<close>, which read as a big-endian unsigned number give the
  length (modulo \<open>2 ^ 32\<close>, the range of the field), then the bytes of the string;
  for a non-empty string of at most 254 bytes, one byte holding the length, then the bytes
  of the string; for the empty string, exactly two zero bytes.
\<close>

theorem WriteString_output:
  assumes "err b = None" and "w_Write b = bytes_Buffer_Write"
  shows "err (WriteString s b) = None
       \<and> length (bytes_of_string s) = length s
       \<and> (254 < length s \<longrightarrow>
            w (WriteString s b)
              = w b @ [255] @ PutUint32 (of_nat (length s)) @ bytes_of_string s
          \<and> length (PutUint32 (of_nat (length s))) = 4
          \<and> be_nat (PutUint32 (of_nat (length s))) = length s mod 2 ^ 32)
       \<and> (s \<noteq> [] \<and> length s \<le> 254 \<longrightarrow>
            w (WriteString s b) = w b @ [of_nat (length s)] @ bytes_of_string s
          \<and> unat (of_nat (length s) :: byte) = length s)
       \<and> (s = [] \<longrightarrow> w (WriteString s b) = w b @ [0, 0])"
  using WriteString_on_bytes_Buffer [OF assms, of s]
  by (cases "s = []")
    (simp_all add: length_PutUint32 be_nat_length_prefix unat_of_nat bytes_of_string_def)

theorem WriteString_output_witness:
  "err (NewWBuffer [7] None 0) = None
   \<and> w_Write (NewWBuffer [7] None 0) = bytes_Buffer_Write
   \<and> w (WriteString (replicate 300 (CHR ''x'')) (NewWBuffer [7] None 0))
       = [7, 255, 0, 0, 1, 44] @ replicate 300 120
   \<and> be_nat [0, 0, 1, 44] = 300
   \<and> w (WriteString ''ab'' (NewWBuffer [7] None 0)) = [7, 2, 97, 98]
   \<and> w (WriteString [] (NewWBuffer [7] None 0)) = [7, 0, 0]"
  using WriteString_output [of "NewWBuffer [7] None 0" "replicate 300 (CHR ''x'')"]
    WriteString_output [of "NewWBuffer [7] None 0" "''ab''"]
    WriteString_output [of "NewWBuffer [7] None 0" "[]"]
  by (simp add: NewWBuffer_def PutUint32_def bytes_of_string_def be_nat_def)

text \<open>
  C6. Once the error slot of a write buffer holds an error, every write primitive
  (\<open>WriteString\<close>, \<open>WriteI8\<close> to \<open>WriteI64\<close>, \<open>WriteU8\<close> to \<open>WriteU64\<close>, \<open>WriteF32\<close>,
  \<open>WriteF64\<close>, and the internal \<open>write\<close>) returns the buffer as it was: nothing reaches the
  sink and the error slot is unchanged. So after any sequence of such calls the sink holds
  what it held and \<open>Err\<close> still returns the first error.
\<close>

theorem sticky_error:
  assumes "err b = Some e"
  shows "WriteString s b = b \<and> write_raw p b = b
       \<and> WriteI8 i8 b = b \<and> WriteI16 i16 b = b \<and> WriteI32 i32 b = b \<and> WriteI64 i64 b = b
       \<and> WriteU8 u8 b = b \<and> WriteU16 u16 b = b \<and> WriteU32 u32 b = b \<and> WriteU64 u64 b = b
       \<and> WriteF32 f32 b = b \<and> WriteF64 f64 b = b
       \<and> calls cs b = b \<and> w (calls cs b) = w b \<and> Err (calls cs b) = Some e"
  using assms calls_on_failed_buffer [OF assms, of cs] by (simp add: write_prims Err_def)

theorem sticky_error_witness:
  "err (WriteU16 258 (NewWBufferFrom [] (bounded_Write 1) None 0)) = Some ErrShortWrite
   \<and> w (WriteU16 258 (NewWBufferFrom [] (bounded_Write 1) None 0)) = [1]
   \<and> w (calls [CallString ''abc'', CallU8 7, CallF64 1]
          (WriteU16 258 (NewWBufferFrom [] (bounded_Write 1) None 0)))
       = w (WriteU16 258 (NewWBufferFrom [] (bounded_Write 1) None 0))
   \<and> Err (calls [CallString ''abc'', CallU8 7, CallF64 1]
          (WriteU16 258 (NewWBufferFrom [] (bounded_Write 1) None 0))) = Some ErrShortWrite"
proof -
  have h: "err (WriteU16 258 (NewWBufferFrom [] (bounded_Write 1) None 0)) = Some ErrShortWrite"
    by (simp add: WriteU16_def NewWBufferFrom_def sink_Write_def bounded_Write_def PutUint16_def)
  have v: "w (WriteU16 258 (NewWBufferFrom [] (bounded_Write 1) None 0)) = [1]"
    by (simp add: WriteU16_def NewWBufferFrom_def sink_Write_def bounded_Write_def PutUint16_def)
  have c: "w (calls [CallString ''abc'', CallU8 7, CallF64 1]
              (WriteU16 258 (NewWBufferFrom [] (bounded_Write 1) None 0)))
           = w (WriteU16 258 (NewWBufferFrom [] (bounded_Write 1) None 0))
         \<and> Err (calls [CallString ''abc'', CallU8 7, CallF64 1]
              (WriteU16 258 (NewWBufferFrom [] (bounded_Write 1) None 0))) = Some ErrShortWrite"
    using sticky_error [OF h] by blast
  show ?thesis using h v c by (simp only: simp_thms)
qed

section \<open>Properties of header decoding\<close>

lemma read_word_at:
  assumes "r_err r = None" and "drop p (r_data r) = xs @ ys" and "length xs = n" and "0 < n"
  shows "read_word n (r\<lparr>r_pos := p\<rparr>) = (be_word xs, r\<lparr>r_pos := p + n\<rparr>)"
proof -
  have le: "p + n \<le> length (r_data r)"
  proof -
    have "length (drop p (r_data r)) = length xs + length ys"
      using assms(2) by simp
    then show ?thesis
      using assms(3,4) by simp
  qed
  have "take n (drop p (r_data r)) = xs"
    using assms by simp
  then show ?thesis
    using assms(1) le by (simp add: read_word_def read_n_def)
qed

lemma drop_after:
  assumes "drop p zs = xs @ ys" and "length xs = n"
  shows "drop (p + n) zs = ys"
proof -
  have "drop (p + n) zs = drop n (drop p zs)"
    by (simp add: add.commute)
  then show ?thesis
    using assms by simp
qed

text \<open>The six fixed-width fields that precede the offsets.\<close>

lemma header_prefix:
  assumes e: "r_err r = None"
    and lay: "drop (r_pos r) (r_data r) = b4 @ v2 @ o4 @ d4 @ kl2 @ cy2 @ tail"
    and l1: "length b4 = 4" and l2: "length v2 = 2" and l3: "length o4 = 4"
    and l4: "length d4 = 4" and l5: "length kl2 = 2" and l6: "length cy2 = 2"
  shows "ReadI32 r = (be_word b4, r\<lparr>r_pos := r_pos r + 4\<rparr>)"
    and "ReadI16 (r\<lparr>r_pos := r_pos r + 4\<rparr>) = (be_word v2, r\<lparr>r_pos := r_pos r + 6\<rparr>)"
    and "ReadI32 (r\<lparr>r_pos := r_pos r + 6\<rparr>) = (be_word o4, r\<lparr>r_pos := r_pos r + 10\<rparr>)"
    and "ReadU32 (r\<lparr>r_pos := r_pos r + 10\<rparr>) = (be_word d4, r\<lparr>r_pos := r_pos r + 14\<rparr>)"
    and "ReadI16 (r\<lparr>r_pos := r_pos r + 14\<rparr>) = (be_word kl2, r\<lparr>r_pos := r_pos r + 16\<rparr>)"
    and "ReadI16 (r\<lparr>r_pos := r_pos r + 16\<rparr>) = (be_word cy2, r\<lparr>r_pos := r_pos r + 18\<rparr>)"
    and "drop (r_pos r + 18) (r_data r) = tail"
proof -
  have s1: "drop (r_pos r + 4) (r_data r) = v2 @ o4 @ d4 @ kl2 @ cy2 @ tail"
    using drop_after [OF lay l1] .
  have s2: "drop (r_pos r + 6) (r_data r) = o4 @ d4 @ kl2 @ cy2 @ tail"
    using drop_after [OF s1 l2] by (simp add: ac_simps)
  have s3: "drop (r_pos r + 10) (r_data r) = d4 @ kl2 @ cy2 @ tail"
    using drop_after [OF s2 l3] by (simp add: ac_simps)
  have s4: "drop (r_pos r + 14) (r_data r) = kl2 @ cy2 @ tail"
    using drop_after [OF s3 l4] by (simp add: ac_simps)
  have s5: "drop (r_pos r + 16) (r_data r) = cy2 @ tail"
    using drop_after [OF s4 l5] by (simp add: ac_simps)
  show "drop (r_pos r + 18) (r_data r) = tail"
    using drop_after [OF s5 l6] by (simp add: ac_simps)
  show "ReadI32 r = (be_word b4, r\<lparr>r_pos := r_pos r + 4\<rparr>)"
    using read_word_at [OF e lay l1] by (simp add: ReadI32_def)
  show "ReadI16 (r\<lparr>r_pos := r_pos r + 4\<rparr>) = (be_word v2, r\<lparr>r_pos := r_pos r + 6\<rparr>)"
    using read_word_at [OF e s1 l2] by (simp add: ReadI16_def ac_simps)
  show "ReadI32 (r\<lparr>r_pos := r_pos r + 6\<rparr>) = (be_word o4, r\<lparr>r_pos := r_pos r + 10\<rparr>)"
    using read_word_at [OF e s2 l3] by (simp add: ReadI32_def ac_simps)
  show "ReadU32 (r\<lparr>r_pos := r_pos r + 10\<rparr>) = (be_word d4, r\<lparr>r_pos := r_pos r + 14\<rparr>)"
    using read_word_at [OF e s3 l4] by (simp add: ReadU32_def ac_simps)
  show "ReadI16 (r\<lparr>r_pos := r_pos r + 14\<rparr>) = (be_word kl2, r\<lparr>r_pos := r_pos r + 16\<rparr>)"
    using read_word_at [OF e s4 l5] by (simp add: ReadI16_def ac_simps)
  show "ReadI16 (r\<lparr>r_pos := r_pos r + 16\<rparr>) = (be_word cy2, r\<lparr>r_pos := r_pos r + 18\<rparr>)"
    using read_word_at [OF e s5 l6] by (simp add: ReadI16_def ac_simps)
qed

lemma offsets_wide:
  assumes e: "r_err r = None"
    and lay: "drop p (r_data r) = sk @ sp @ rest"
    and l1: "length sk = 8" and l2: "length sp = 8"
  shows "ReadI64 (r\<lparr>r_pos := p\<rparr>) = (be_word sk, r\<lparr>r_pos := p + 8\<rparr>)"
    and "ReadI64 (r\<lparr>r_pos := p + 8\<rparr>) = (be_word sp, r\<lparr>r_pos := p + 16\<rparr>)"
proof -
  have s1: "drop (p + 8) (r_data r) = sp @ rest"
    using drop_after [OF lay l1] .
  show "ReadI64 (r\<lparr>r_pos := p\<rparr>) = (be_word sk, r\<lparr>r_pos := p + 8\<rparr>)"
    using read_word_at [OF e lay l1] by (simp add: ReadI64_def)
  show "ReadI64 (r\<lparr>r_pos := p + 8\<rparr>) = (be_word sp, r\<lparr>r_pos := p + 16\<rparr>)"
    using read_word_at [OF e s1 l2] by (simp add: ReadI64_def ac_simps)
qed

lemma offsets_narrow:
  assumes e: "r_err r = None"
    and lay: "drop p (r_data r) = sk @ sp @ rest"
    and l1: "length sk = 4" and l2: "length sp = 4"
  shows "ReadI32 (r\<lparr>r_pos := p\<rparr>) = (be_word sk, r\<lparr>r_pos := p + 4\<rparr>)"
    and "ReadI32 (r\<lparr>r_pos := p + 4\<rparr>) = (be_word sp, r\<lparr>r_pos := p + 8\<rparr>)"
proof -
  have s1: "drop (p + 4) (r_data r) = sp @ rest"
    using drop_after [OF lay l1] .
  show "ReadI32 (r\<lparr>r_pos := p\<rparr>) = (be_word sk, r\<lparr>r_pos := p + 4\<rparr>)"
    using read_word_at [OF e lay l1] by (simp add: ReadI32_def)
  show "ReadI32 (r\<lparr>r_pos := p + 4\<rparr>) = (be_word sp, r\<lparr>r_pos := p + 8\<rparr>)"
    using read_word_at [OF e s1 l2] by (simp add: ReadI32_def ac_simps)
qed

lemmas read_eval =
  NewRBuffer_def RBuffer_Err_def ReadI32_def ReadI16_def ReadU32_def ReadI64_def ReadU8_def
  ReadString_def read_word_def read_n_def be_word_def string_of_bytes_def char_of_def bit_0

text \<open>
  C1, as the code has it. For a header whose total length is not negative, read from a
  buffer without error that holds the six fixed-width fields and then the offsets:
  when the version is greater than 1000, the record offset and the directory offset are the
  next two 8-byte big-endian integers and the class name is read 34 bytes after the start;
  when the version is at most 1000 (1000 included), they are the next two 4-byte big-endian
  integers, sign-extended to 64 bits, and the class name is read 26 bytes after the start.
\<close>

theorem UnmarshalROOT_offset_width:
  assumes ok: "RBuffer_Err r = None"
    and lay: "drop (r_pos r) (r_data r) = b4 @ v2 @ o4 @ d4 @ kl2 @ cy2 @ sk @ sp @ rest"
    and l1: "length b4 = 4" and l2: "length v2 = 2" and l3: "length o4 = 4"
    and l4: "length d4 = 4" and l5: "length kl2 = 2" and l6: "length cy2 = 2"
    and nonneg: "0 \<le> sint (be_word b4 :: 32 word)"
  shows "version (snd (snd (UnmarshalROOT datime2time r k))) = be_word v2
       \<and> (1000 < sint (be_word v2 :: 16 word) \<and> length sk = 8 \<and> length sp = 8 \<longrightarrow>
            seekkey (snd (snd (UnmarshalROOT datime2time r k))) = be_word sk
          \<and> seekpdir (snd (snd (UnmarshalROOT datime2time r k))) = be_word sp
          \<and> klass (snd (snd (UnmarshalROOT datime2time r k)))
              = fst (ReadString (r\<lparr>r_pos := r_pos r + 34\<rparr>)))
       \<and> (sint (be_word v2 :: 16 word) \<le> 1000 \<and> length sk = 4 \<and> length sp = 4 \<longrightarrow>
            seekkey (snd (snd (UnmarshalROOT datime2time r k))) = scast (be_word sk :: 32 word)
          \<and> seekpdir (snd (snd (UnmarshalROOT datime2time r k))) = scast (be_word sp :: 32 word)
          \<and> klass (snd (snd (UnmarshalROOT datime2time r k)))
              = fst (ReadString (r\<lparr>r_pos := r_pos r + 26\<rparr>)))"
proof -
  have e: "r_err r = None"
    using ok by (simp add: RBuffer_Err_def)
  note hp = header_prefix [OF e lay l1 l2 l3 l4 l5 l6]
  have ver: "version (snd (snd (UnmarshalROOT datime2time r k))) = be_word v2"
    using ok nonneg hp(1-6)
    by (simp add: UnmarshalROOT_def split: prod.splits)
  have wide: "seekkey (snd (snd (UnmarshalROOT datime2time r k))) = be_word sk
          \<and> seekpdir (snd (snd (UnmarshalROOT datime2time r k))) = be_word sp
          \<and> klass (snd (snd (UnmarshalROOT datime2time r k)))
              = fst (ReadString (r\<lparr>r_pos := r_pos r + 34\<rparr>))"
    if c: "1000 < sint (be_word v2 :: 16 word)" and k1: "length sk = 8" and k2: "length sp = 8"
    using ok nonneg hp(1-6) c offsets_wide [OF e hp(7) k1 k2]
    by (simp add: UnmarshalROOT_def ac_simps split: prod.splits)
  have narrow: "seekkey (snd (snd (UnmarshalROOT datime2time r k))) = scast (be_word sk :: 32 word)
          \<and> seekpdir (snd (snd (UnmarshalROOT datime2time r k))) = scast (be_word sp :: 32 word)
          \<and> klass (snd (snd (UnmarshalROOT datime2time r k)))
              = fst (ReadString (r\<lparr>r_pos := r_pos r + 26\<rparr>))"
    if c: "sint (be_word v2 :: 16 word) \<le> 1000" and k1: "length sk = 4" and k2: "length sp = 4"
    using ok nonneg hp(1-6) c offsets_narrow [OF e hp(7) k1 k2]
    by (simp add: UnmarshalROOT_def ac_simps split: prod.splits)
  show ?thesis
    using ver wide narrow by blast
qed

theorem UnmarshalROOT_offset_width_witness:
  "seekkey (snd (snd (UnmarshalROOT id (NewRBuffer header_v1500 None 0) Key0))) = 256
   \<and> seekpdir (snd (snd (UnmarshalROOT id (NewRBuffer header_v1500 None 0) Key0))) = 512
   \<and> klass (snd (snd (UnmarshalROOT id (NewRBuffer header_v1500 None 0) Key0))) = ''A''
   \<and> seekkey (snd (snd (UnmarshalROOT id (NewRBuffer header_v500 None 0) Key0))) = - 2
   \<and> seekpdir (snd (snd (UnmarshalROOT id (NewRBuffer header_v500 None 0) Key0))) = 512
   \<and> klass (snd (snd (UnmarshalROOT id (NewRBuffer header_v500 None 0) Key0))) = ''A''"
  using UnmarshalROOT_offset_width [of "NewRBuffer header_v1500 None 0"
      "[0,0,0,64]" "[5,220]" "[0,0,0,10]" "[0,0,0,0]" "[0,54]" "[0,1]"
      "[0,0,0,0,0,0,1,0]" "[0,0,0,0,0,0,2,0]" "[1,65, 1,66, 1,67]" id Key0]
    UnmarshalROOT_offset_width [of "NewRBuffer header_v500 None 0"
      "[0,0,0,64]" "[1,244]" "[0,0,0,10]" "[0,0,0,0]" "[0,54]" "[0,1]"
      "[255,255,255,254]" "[0,0,2,0]" "[1,65, 1,66, 1,67]" id Key0]
  by (simp add: read_eval header_v1500_def header_v500_def)

text \<open>
  The claim C1 as stated fails at version 1000: the header \<open>header_v1000\<close> has version
  1000 and two 8-byte offsets 256 and 512, and decoding it without error gives the record
  offset 0 and the directory offset 256, the two 4-byte integers at that place, and an
  empty class name.
\<close>

theorem UnmarshalROOT_version_1000_counterexample:
  "fst (UnmarshalROOT id (NewRBuffer header_v1000 None 0) Key0) = None
   \<and> 0 \<le> sint (bytes (snd (snd (UnmarshalROOT id (NewRBuffer header_v1000 None 0) Key0))))
   \<and> 1000 \<le> sint (version (snd (snd (UnmarshalROOT id (NewRBuffer header_v1000 None 0) Key0))))
   \<and> (be_word (take 8 (drop 18 header_v1000)) :: 64 word) = 256
   \<and> (be_word (take 8 (drop 26 header_v1000)) :: 64 word) = 512
   \<and> seekkey (snd (snd (UnmarshalROOT id (NewRBuffer header_v1000 None 0) Key0))) \<noteq> 256
   \<and> seekpdir (snd (snd (UnmarshalROOT id (NewRBuffer header_v1000 None 0) Key0))) \<noteq> 512
   \<and> seekkey (snd (snd (UnmarshalROOT id (NewRBuffer header_v1000 None 0) Key0)))
       = scast (be_word (take 4 (drop 18 header_v1000)) :: 32 word)
   \<and> seekpdir (snd (snd (UnmarshalROOT id (NewRBuffer header_v1000 None 0) Key0)))
       = scast (be_word (take 4 (drop 22 header_v1000)) :: 32 word)
   \<and> klass (snd (snd (UnmarshalROOT id (NewRBuffer header_v1000 None 0) Key0))) = []"
  by (simp add: UnmarshalROOT_def read_eval Key0_def header_v1000_def)

text \<open>
  C7. When the buffer is without error and the four bytes at the cursor decode to a
  negative total length, \<open>UnmarshalROOT\<close> returns no error, leaves the cursor right after
  those four bytes, whatever follows them (nothing, or too little for a header), and
  changes the key only by storing the length and the class \<open>[GAP]\<close>.
\<close>

theorem UnmarshalROOT_gap:
  assumes "RBuffer_Err r = None"
    and "drop (r_pos r) (r_data r) = b4 @ rest"
    and "length b4 = 4"
    and "sint (be_word b4 :: 32 word) < 0"
  shows "UnmarshalROOT datime2time r k =
           (None, r\<lparr>r_pos := r_pos r + 4\<rparr>, k\<lparr>bytes := be_word b4, klass := ''[GAP]''\<rparr>)"
proof -
  have e: "r_err r = None"
    using assms(1) by (simp add: RBuffer_Err_def)
  have "ReadI32 r = (be_word b4, r\<lparr>r_pos := r_pos r + 4\<rparr>)"
    using read_word_at [OF e assms(2) assms(3)] by (simp add: ReadI32_def)
  then show ?thesis
    using assms(1,4) by (simp add: UnmarshalROOT_def)
qed

theorem UnmarshalROOT_gap_witness:
  "RBuffer_Err (NewRBuffer [255,255,255,246, 9] None 0) = None
   \<and> sint (be_word [255,255,255,246] :: 32 word) = - 10
   \<and> UnmarshalROOT id (NewRBuffer [255,255,255,246, 9] None 0) Key0 =
       (None, (NewRBuffer [255,255,255,246, 9] None 0)\<lparr>r_pos := 4\<rparr>,
        Key0\<lparr>bytes := - 10, klass := ''[GAP]''\<rparr>)"
  using UnmarshalROOT_gap [of "NewRBuffer [255,255,255,246, 9] None 0" "[255,255,255,246]" "[9]"
      id Key0]
  by (simp add: NewRBuffer_def RBuffer_Err_def be_word_def)

text \<open>
  C10. When the error slot of the read buffer is already set, \<open>UnmarshalROOT\<close> returns that
  error and leaves the key and the buffer as they were.
\<close>

theorem UnmarshalROOT_failed_buffer:
  assumes "RBuffer_Err r = Some e"
  shows "UnmarshalROOT datime2time r k = (Some e, r, k)"
  using assms by (simp add: UnmarshalROOT_def)

theorem UnmarshalROOT_failed_buffer_witness:
  "RBuffer_Err (snd (ReadI32 (NewRBuffer [1, 2] None 0))) = Some ErrUnexpectedEOF
   \<and> UnmarshalROOT id (snd (ReadI32 (NewRBuffer [1, 2] None 0))) Key0
       = (Some ErrUnexpectedEOF, snd (ReadI32 (NewRBuffer [1, 2] None 0)), Key0)"
proof -
  have h: "RBuffer_Err (snd (ReadI32 (NewRBuffer [1, 2] None 0))) = Some ErrUnexpectedEOF"
    by (simp add: NewRBuffer_def RBuffer_Err_def ReadI32_def read_word_def read_n_def)
  show ?thesis
    using h UnmarshalROOT_failed_buffer [OF h, of id Key0] by simp
qed

section \<open>Properties of payload loading\<close>

lemma loop_stop_err: "ReadFull_loop s buf n (Some e) = ((n, Some e), buf, s)"
  by (simp add: ReadFull_loop.simps)

lemma loop_stop_full: "length buf \<le> n \<Longrightarrow> ReadFull_loop s buf n e = ((n, e), buf, s)"
  by (simp add: ReadFull_loop.simps)

lemma loop_step:
  "n < length buf \<Longrightarrow> ReadFull_loop s buf n None =
     (case SectionReader_Read s (length buf - n) of
        ((bs, e'), s') \<Rightarrow>
          ReadFull_loop s' (take n buf @ bs @ drop (n + length bs) buf) (n + length bs) e')"
  by (subst ReadFull_loop.simps) simp

lemma ReadFull_nil: "ReadFull s [] = ((0, None), [])"
  by (simp add: ReadFull_def loop_stop_full)

text \<open>A buffer that fits the section and the file is filled by one \<open>Read\<close>.\<close>

lemma ReadFull_within:
  assumes "0 \<le> sr_off s"
    and "buf \<noteq> []"
    and "int (length buf) \<le> sr_limit s - sr_off s"
    and "nat (sr_off s) + length buf \<le> length (content (sr_r s))"
  shows "ReadFull s buf =
           ((length buf, None), take (length buf) (drop (nat (sr_off s)) (content (sr_r s))))"
proof -
  have p: "0 < length buf"
    using assms(2) by simp
  have a1: "\<not> sr_limit s \<le> sr_off s"
    using assms(3) p by linarith
  have a2: "\<not> int (length (content (sr_r s))) \<le> sr_off s"
    using assms(1,4) p by linarith
  have a3: "\<not> sr_off s < 0"
    using assms(1) by simp
  have a4: "\<not> sr_limit s - sr_off s < int (length buf)"
    using assms(3) by simp
  have a5: "length buf \<le> length (content (sr_r s)) - nat (sr_off s)"
    using assms(4) by linarith
  have rd: "SectionReader_Read s (length buf) =
      ((take (length buf) (drop (nat (sr_off s)) (content (sr_r s))), None),
       s\<lparr>sr_off := sr_off s + int (length buf)\<rparr>)"
    using a1 a2 a3 a4 a5 by (simp add: SectionReader_Read_def File_ReadAt_def Let_def min_def)
  show ?thesis
    using p a5 rd by (simp add: ReadFull_def loop_step loop_stop_full min_def)
qed

text \<open>A buffer that fits the section but not the file: the file ends first.\<close>

lemma ReadFull_short:
  assumes "0 \<le> sr_off s"
    and "buf \<noteq> []"
    and "int (length buf) \<le> sr_limit s - sr_off s"
    and "length (content (sr_r s)) < nat (sr_off s) + length buf"
  shows "snd (fst (ReadFull s buf)) =
           Some (if length (content (sr_r s)) \<le> nat (sr_off s) then EOF else ErrUnexpectedEOF)"
proof -
  have p: "0 < length buf"
    using assms(2) by simp
  have a1: "\<not> sr_limit s \<le> sr_off s"
    using assms(3) p by linarith
  have a3: "\<not> sr_off s < 0"
    using assms(1) by simp
  have a4: "\<not> sr_limit s - sr_off s < int (length buf)"
    using assms(3) by simp
  show ?thesis
  proof (cases "length (content (sr_r s)) \<le> nat (sr_off s)")
    case True
    have a2: "int (length (content (sr_r s))) \<le> sr_off s"
      using True assms(1) by linarith
    have rd: "SectionReader_Read s (length buf) = (([], Some EOF), s)"
      using a1 a2 a3 a4 by (simp add: SectionReader_Read_def File_ReadAt_def Let_def)
    show ?thesis
      using p rd True by (simp add: ReadFull_def loop_step loop_stop_err)
  next
    case False
    have a2: "\<not> int (length (content (sr_r s))) \<le> sr_off s"
      using False assms(1) by linarith
    have a5: "length (content (sr_r s)) - nat (sr_off s) < length buf"
      using assms(4) False by linarith
    have a6: "0 < length (content (sr_r s)) - nat (sr_off s)"
      using False by linarith
    have rd: "SectionReader_Read s (length buf) =
        ((drop (nat (sr_off s)) (content (sr_r s)), Some EOF),
         s\<lparr>sr_off := sr_off s + int (length (content (sr_r s)) - nat (sr_off s))\<rparr>)"
      using a1 a2 a3 a4 a5 by (simp add: SectionReader_Read_def File_ReadAt_def Let_def min_def)
    show ?thesis
      using p rd False a5 a6 by (simp add: ReadFull_def loop_step loop_stop_err)
  qed
qed

lemma sint_scast_32_64: "sint (scast (x :: 32 word) :: 64 word) = sint x"
proof -
  have "- (2 ^ 31) \<le> sint x" "sint x < 2 ^ 31"
    using sint_ge [of x] sint_lt [of x] by simp_all
  then show ?thesis
    by (simp add: signed_scast_eq signed_take_bit_int_eq_self)
qed

lemma sint_add_64:
  "- (2 ^ 63) \<le> sint a + sint b \<Longrightarrow> sint a + sint b < 2 ^ 63
     \<Longrightarrow> sint (a + b :: 64 word) = sint a + sint b"
  by (simp add: sint_word_ariths signed_take_bit_int_eq_self)

lemma sint_sub_32:
  "- (2 ^ 31) \<le> sint a - sint b \<Longrightarrow> sint a - sint b < 2 ^ 31
     \<Longrightarrow> sint (a - b :: 32 word) = sint a - sint b"
  by (simp add: sint_word_ariths signed_take_bit_int_eq_self)

lemma sint_add_64_wrap:
  assumes "2 ^ 63 \<le> sint a + sint b"
  shows "sint (a + b :: 64 word) = sint a + sint b - 2 ^ 64"
proof -
  have ua: "sint a < 2 ^ 63" and ub: "sint b < 2 ^ 63"
    using sint_lt [of a] sint_lt [of b] by simp_all
  define y where "y = sint a + sint b + 2 ^ 63"
  have lo: "2 ^ 64 \<le> y" and hi: "y < 2 * 2 ^ 64"
    using assms ua ub by (simp_all add: y_def)
  have "y mod 2 ^ 64 = (y - 2 ^ 64) mod 2 ^ 64"
    by simp
  also have "\<dots> = y - 2 ^ 64"
    using lo hi by (intro mod_pos_pos_trivial) simp_all
  finally have m: "y mod 2 ^ 64 = y - 2 ^ 64" .
  have "sint (a + b) = signed_take_bit 63 (sint a + sint b)"
    by (simp add: sint_word_ariths)
  also have "\<dots> = y mod 2 ^ 64 - 2 ^ 63"
    by (simp add: signed_take_bit_eq_take_bit_shift take_bit_eq_mod y_def)
  also have "\<dots> = sint a + sint b - 2 ^ 64"
    using m by (simp add: y_def)
  finally show ?thesis .
qed

text \<open>A read at a negative offset fails at once.\<close>

lemma ReadFull_negative:
  assumes "sr_off s < 0" and "sr_off s < sr_limit s" and "buf \<noteq> []"
  shows "ReadFull s buf = ((0, Some ErrNegativeOffset), buf)"
proof -
  have p: "0 < length buf"
    using assms(3) by simp
  have a1: "\<not> sr_limit s \<le> sr_off s"
    using assms(2) by simp
  have rd: "SectionReader_Read s (length buf) = (([], Some ErrNegativeOffset), s)"
    using a1 assms(1) by (simp add: SectionReader_Read_def File_ReadAt_def Let_def)
  show ?thesis
    using p rd by (simp add: ReadFull_def loop_step loop_stop_err)
qed

text \<open>
  The section of the uncompressed path, for lengths and an offset that are not negative
  and a section that ends within \<open>int64\<close>, where no sum wraps around.
\<close>

lemma section_after_key:
  assumes b: "0 \<le> sint (bytes k)" and kl: "0 \<le> sint (keylen k)"
    and sk: "0 \<le> sint (seekkey k)"
    and sk2: "sint (seekkey k) + sint (keylen k) + sint (bytes k) < 2 ^ 63"
  shows "sr_off (NewSectionReader (f k) (seekkey k + scast (keylen k)) (scast (bytes k)))
           = sint (seekkey k) + sint (keylen k)"
    and "sr_limit (NewSectionReader (f k) (seekkey k + scast (keylen k)) (scast (bytes k)))
           = sint (seekkey k) + sint (keylen k) + sint (bytes k)"
    and "sr_r (NewSectionReader (f k) (seekkey k + scast (keylen k)) (scast (bytes k))) = f k"
proof -
  have r1: "sint (keylen k) < 2 ^ 31"
    using sint_lt [of "keylen k"] by simp
  have r2: "sint (bytes k) < 2 ^ 31"
    using sint_lt [of "bytes k"] by simp
  have s: "sint (seekkey k + scast (keylen k)) = sint (seekkey k) + sint (keylen k)"
    using b kl sk sk2 r1 by (simp add: sint_add_64 sint_scast_32_64)
  have l: "sint (seekkey k + scast (keylen k) + scast (bytes k))
             = sint (seekkey k) + sint (keylen k) + sint (bytes k)"
    using b kl sk sk2 r1 r2 s by (simp add: sint_add_64 sint_scast_32_64)
  show "sr_off (NewSectionReader (f k) (seekkey k + scast (keylen k)) (scast (bytes k)))
           = sint (seekkey k) + sint (keylen k)"
    using s by (simp add: NewSectionReader_def)
  show "sr_limit (NewSectionReader (f k) (seekkey k + scast (keylen k)) (scast (bytes k)))
           = sint (seekkey k) + sint (keylen k) + sint (bytes k)"
    using l by (simp add: NewSectionReader_def)
  show "sr_r (NewSectionReader (f k) (seekkey k + scast (keylen k)) (scast (bytes k))) = f k"
    by (simp add: NewSectionReader_def)
qed

lemma difference_in_range:
  assumes b: "0 \<le> sint (bytes k)" and kl: "0 \<le> sint (keylen k)"
  shows "sint (bytes k - keylen k) = sint (bytes k) - sint (keylen k)"
proof -
  have r1: "sint (keylen k) < 2 ^ 31"
    using sint_lt [of "keylen k"] by simp
  have r2: "sint (bytes k) < 2 ^ 31"
    using sint_lt [of "bytes k"] by simp
  show ?thesis
    using b kl r1 r2 by (simp add: sint_sub_32)
qed

lemma objlen_uncompressed:
  assumes nc: "\<not> isCompressed k" and b: "0 \<le> sint (bytes k)" and kl: "0 \<le> sint (keylen k)"
  shows "sint (objlen k) = sint (bytes k) - sint (keylen k)"
proof -
  have "objlen k = bytes k - keylen k"
    using nc by (simp add: isCompressed_def)
  then show ?thesis
    using difference_in_range [OF b kl] by simp
qed

lemma load_direct:
  assumes nc: "\<not> isCompressed k"
  shows "load z buf0 k =
     (case ReadFull (NewSectionReader (f k) (seekkey k + scast (keylen k)) (scast (bytes k)))
             (if int (length buf0) < sint (objlen k)
              then replicate (nat (sint (objlen k))) 0 else buf0) of
        ((n, Some e), buf') \<Rightarrow> Inl e
      | ((n, None), buf') \<Rightarrow> Inr buf')"
  using nc by (simp add: load_def Let_def)

lemmas key_eval =
  Key0_def key_plain_def key_packed_def key_lost_def key_empty_def key_far_def
  file10_def file20_def zlib_stored_def zlib_broken_def
  rt_none_def rt_T_def rt_zero_def rt_dir_def

lemmas io_eval =
  load_def Bytes_def isCompressed_def NewSectionReader_def ReadFull_def ReadFull_zlib_def
  loop_step loop_stop_err loop_stop_full SectionReader_Read_def File_ReadAt_def Let_def

lemmas obj_eval = Object_def Value_def Class_def Name_def read_eval

text \<open>
  C2. A key is classified as compressed exactly when \<open>objlen\<close> differs from
  \<open>bytes - keylen\<close>, the difference taken in \<open>int32\<close> as the code does; for lengths that
  are not negative this is the difference of the numbers. When the two differ, \<open>load\<close>
  is the decompression path: zlib on the section that starts 9 bytes after the key.
  When they are equal, \<open>load\<close> is the direct read of the section that starts right after
  the key, and zlib has no part in the result.
\<close>

theorem load_path:
  "(isCompressed k \<longleftrightarrow> objlen k \<noteq> bytes k - keylen k)
   \<and> (0 \<le> sint (bytes k) \<and> 0 \<le> sint (keylen k) \<longrightarrow>
        (isCompressed k \<longleftrightarrow> sint (objlen k) \<noteq> sint (bytes k) - sint (keylen k)))
   \<and> (objlen k \<noteq> bytes k - keylen k \<longrightarrow>
        load z buf0 k =
          (case zlib_NewReader z
                  (NewSectionReader (f k) (seekkey k + scast (keylen k) + 9)
                     (scast (bytes k) - scast (keylen k))) of
             Inl e \<Rightarrow> Inl e
           | Inr rc \<Rightarrow>
               ReadFull_zlib z rc
                 (if int (length buf0) < sint (objlen k)
                  then replicate (nat (sint (objlen k))) 0 else buf0)))
   \<and> (objlen k = bytes k - keylen k \<longrightarrow>
        load z' buf0 k = load z buf0 k
      \<and> load z buf0 k =
          (case ReadFull
                  (NewSectionReader (f k) (seekkey k + scast (keylen k)) (scast (bytes k)))
                  (if int (length buf0) < sint (objlen k)
                   then replicate (nat (sint (objlen k))) 0 else buf0) of
             ((n, Some e), buf') \<Rightarrow> Inl e
           | ((n, None), buf') \<Rightarrow> Inr buf'))"
proof -
  have num: "isCompressed k \<longleftrightarrow> sint (objlen k) \<noteq> sint (bytes k) - sint (keylen k)"
    if "0 \<le> sint (bytes k)" and "0 \<le> sint (keylen k)"
  proof -
    have "objlen k = bytes k - keylen k \<longleftrightarrow> sint (objlen k) = sint (bytes k - keylen k)"
      by (auto intro: signed_word_eqI)
    then show ?thesis
      using difference_in_range [OF that] by (simp add: isCompressed_def)
  qed
  have rest: "(isCompressed k \<longleftrightarrow> objlen k \<noteq> bytes k - keylen k)
   \<and> (objlen k \<noteq> bytes k - keylen k \<longrightarrow>
        load z buf0 k =
          (case zlib_NewReader z
                  (NewSectionReader (f k) (seekkey k + scast (keylen k) + 9)
                     (scast (bytes k) - scast (keylen k))) of
             Inl e \<Rightarrow> Inl e
           | Inr rc \<Rightarrow>
               ReadFull_zlib z rc
                 (if int (length buf0) < sint (objlen k)
                  then replicate (nat (sint (objlen k))) 0 else buf0)))
   \<and> (objlen k = bytes k - keylen k \<longrightarrow>
        load z' buf0 k = load z buf0 k
      \<and> load z buf0 k =
          (case ReadFull
                  (NewSectionReader (f k) (seekkey k + scast (keylen k)) (scast (bytes k)))
                  (if int (length buf0) < sint (objlen k)
                   then replicate (nat (sint (objlen k))) 0 else buf0) of
             ((n, Some e), buf') \<Rightarrow> Inl e
           | ((n, None), buf') \<Rightarrow> Inr buf'))"
    by (simp add: load_def isCompressed_def Let_def split: sum.splits)
  show ?thesis
    using num rest by blast
qed

theorem load_path_witness:
  "isCompressed key_packed \<and> \<not> isCompressed key_plain
   \<and> load zlib_stored [] key_packed = Inr [13,14,15,16,17]
   \<and> load zlib_broken [] key_packed = Inl (ErrOther ''zlib: invalid header'')
   \<and> load zlib_stored [] key_plain = Inr [4,5,6,7,8,9]
   \<and> load zlib_broken [] key_plain = Inr [4,5,6,7,8,9]"
  using load_path [of key_packed zlib_stored "[]" zlib_stored]
    load_path [of key_packed zlib_broken "[]" zlib_broken]
    load_path [of key_plain zlib_stored "[]" zlib_broken]
  by (simp add: key_eval NewSectionReader_def ReadFull_def ReadFull_zlib_def loop_step
      loop_stop_err loop_stop_full SectionReader_Read_def File_ReadAt_def Let_def)

text \<open>
  The section of the uncompressed path when \<open>seekkey + keylen\<close> exceeds \<open>int64\<close>: the
  sum wraps around to a negative offset.
\<close>

lemma section_wrapped:
  assumes b: "0 \<le> sint (bytes k)" and kl: "0 \<le> sint (keylen k)"
    and far: "2 ^ 63 \<le> sint (seekkey k) + sint (keylen k)"
  shows "sr_off (NewSectionReader (f k) (seekkey k + scast (keylen k)) (scast (bytes k))) < 0"
    and "sr_limit (NewSectionReader (f k) (seekkey k + scast (keylen k)) (scast (bytes k)))
           = sr_off (NewSectionReader (f k) (seekkey k + scast (keylen k)) (scast (bytes k)))
               + sint (bytes k)"
proof -
  have r0: "sint (seekkey k) < 2 ^ 63"
    using sint_lt [of "seekkey k"] by simp
  have r1: "sint (keylen k) < 2 ^ 31"
    using sint_lt [of "keylen k"] by simp
  have r2: "sint (bytes k) < 2 ^ 31"
    using sint_lt [of "bytes k"] by simp
  have s: "sint (seekkey k + scast (keylen k)) = sint (seekkey k) + sint (keylen k) - 2 ^ 64"
    using sint_add_64_wrap [of "seekkey k" "scast (keylen k)"] far
    by (simp add: sint_scast_32_64)
  have l: "sint (seekkey k + scast (keylen k) + scast (bytes k))
             = sint (seekkey k + scast (keylen k)) + sint (bytes k)"
    using b far r0 r1 r2 s by (simp add: sint_add_64 sint_scast_32_64)
  show "sr_off (NewSectionReader (f k) (seekkey k + scast (keylen k)) (scast (bytes k))) < 0"
    using s r0 r1 by (simp add: NewSectionReader_def)
  show "sr_limit (NewSectionReader (f k) (seekkey k + scast (keylen k)) (scast (bytes k)))
           = sr_off (NewSectionReader (f k) (seekkey k + scast (keylen k)) (scast (bytes k)))
               + sint (bytes k)"
    using l by (simp add: NewSectionReader_def)
qed

text \<open>
  C5, as the code has it. Take a key that is not compressed, with lengths and an offset
  that are not negative. \<open>load\<close> on a nil buffer (as \<open>Bytes\<close> calls it) fills a buffer of
  \<open>objlen\<close> bytes, that is \<open>bytes - keylen\<close> bytes, by \<open>io.ReadFull\<close> on a section reader; it
  returns the empty buffer without reading when \<open>objlen\<close> is not positive.
  When \<open>seekkey + keylen + bytes\<close> is within \<open>int64\<close>, the section has \<open>bytes\<close> length and
  starts right after the key, at file offset \<open>seekkey + keylen\<close>, and for a positive
  \<open>objlen\<close> the call returns exactly the \<open>objlen\<close> bytes of the file from that offset when
  the file holds them, and fails when the file ends before: with \<open>EOF\<close> when it ends at or
  before that offset, with \<open>ErrUnexpectedEOF\<close> otherwise.
  When \<open>seekkey + keylen\<close> itself exceeds \<open>int64\<close>, the sum wraps around and for a positive
  \<open>objlen\<close> the call fails with the error of a read at a negative offset.
\<close>

theorem load_uncompressed:
  assumes nc: "\<not> isCompressed k"
    and b: "0 \<le> sint (bytes k)" and kl: "0 \<le> sint (keylen k)"
    and sk: "0 \<le> sint (seekkey k)"
  shows "load z [] k =
           (case ReadFull
                   (NewSectionReader (f k) (seekkey k + scast (keylen k)) (scast (bytes k)))
                   (replicate (nat (sint (objlen k))) 0) of
              ((n, Some e), buf') \<Rightarrow> Inl e
            | ((n, None), buf') \<Rightarrow> Inr buf')
       \<and> sint (objlen k) = sint (bytes k) - sint (keylen k)
       \<and> (sint (objlen k) \<le> 0 \<longrightarrow> load z [] k = Inr [])
       \<and> (sint (seekkey k) + sint (keylen k) + sint (bytes k) < 2 ^ 63 \<longrightarrow>
            sr_off (NewSectionReader (f k) (seekkey k + scast (keylen k)) (scast (bytes k)))
              = sint (seekkey k) + sint (keylen k)
          \<and> sr_limit (NewSectionReader (f k) (seekkey k + scast (keylen k)) (scast (bytes k)))
              = sint (seekkey k) + sint (keylen k) + sint (bytes k)
          \<and> (0 < sint (objlen k)
               \<and> nat (sint (seekkey k) + sint (keylen k)) + nat (sint (objlen k))
                    \<le> length (content (f k)) \<longrightarrow>
             load z [] k =
               Inr (take (nat (sint (objlen k)))
                      (drop (nat (sint (seekkey k) + sint (keylen k))) (content (f k)))))
          \<and> (0 < sint (objlen k)
               \<and> length (content (f k))
                    < nat (sint (seekkey k) + sint (keylen k)) + nat (sint (objlen k)) \<longrightarrow>
             load z [] k =
               Inl (if length (content (f k)) \<le> nat (sint (seekkey k) + sint (keylen k))
                    then EOF else ErrUnexpectedEOF)))
       \<and> (2 ^ 63 \<le> sint (seekkey k) + sint (keylen k) \<and> 0 < sint (objlen k) \<longrightarrow>
            load z [] k = Inl ErrNegativeOffset)"
proof -
  let ?s = "NewSectionReader (f k) (seekkey k + scast (keylen k)) (scast (bytes k))"
  let ?n = "nat (sint (objlen k))"
  let ?o = "nat (sint (seekkey k) + sint (keylen k))"
  have ol: "sint (objlen k) = sint (bytes k) - sint (keylen k)"
    using objlen_uncompressed [OF nc b kl] .
  have c0: "load z [] k =
           (case ReadFull ?s (replicate ?n 0) of
              ((n, Some e), buf') \<Rightarrow> Inl e
            | ((n, None), buf') \<Rightarrow> Inr buf')"
    using load_direct [OF nc, of z "[]"] by (cases "0 < sint (objlen k)") simp_all
  have c1: "load z [] k = Inr []" if "sint (objlen k) \<le> 0"
    using that load_direct [OF nc, of z "[]"] by (simp add: ReadFull_nil)
  have fits: "sr_off ?s = sint (seekkey k) + sint (keylen k)
          \<and> sr_limit ?s = sint (seekkey k) + sint (keylen k) + sint (bytes k)
          \<and> (0 < sint (objlen k) \<and> ?o + ?n \<le> length (content (f k)) \<longrightarrow>
             load z [] k = Inr (take ?n (drop ?o (content (f k)))))
          \<and> (0 < sint (objlen k) \<and> length (content (f k)) < ?o + ?n \<longrightarrow>
             load z [] k =
               Inl (if length (content (f k)) \<le> ?o then EOF else ErrUnexpectedEOF))"
    if sk2: "sint (seekkey k) + sint (keylen k) + sint (bytes k) < 2 ^ 63"
  proof -
    note sec = section_after_key [OF b kl sk sk2]
    have pre: "0 \<le> sr_off ?s"
        "int (length (replicate ?n (0::byte))) \<le> sr_limit ?s - sr_off ?s"
        "replicate ?n (0::byte) \<noteq> []"
      if "0 < sint (objlen k)"
      using that sec ol kl sk by simp_all
    have c2: "load z [] k = Inr (take ?n (drop ?o (content (f k))))"
      if p: "0 < sint (objlen k)" and h: "?o + ?n \<le> length (content (f k))"
    proof -
      have "ReadFull ?s (replicate ?n 0) = ((?n, None), take ?n (drop ?o (content (f k))))"
        using ReadFull_within [OF pre(1) [OF p] pre(3) [OF p] pre(2) [OF p]] h sec by simp
      then show ?thesis
        using c0 by simp
    qed
    have c3: "load z [] k =
        Inl (if length (content (f k)) \<le> ?o then EOF else ErrUnexpectedEOF)"
      if p: "0 < sint (objlen k)" and h: "length (content (f k)) < ?o + ?n"
    proof -
      have "snd (fst (ReadFull ?s (replicate ?n 0))) =
          Some (if length (content (f k)) \<le> ?o then EOF else ErrUnexpectedEOF)"
        using ReadFull_short [OF pre(1) [OF p] pre(3) [OF p] pre(2) [OF p]] h sec by simp
      then show ?thesis
        using c0 by (simp split: prod.splits)
    qed
    show ?thesis
      using sec(1,2) c2 c3 by blast
  qed
  have wrapped: "load z [] k = Inl ErrNegativeOffset"
    if far: "2 ^ 63 \<le> sint (seekkey k) + sint (keylen k)" and p: "0 < sint (objlen k)"
  proof -
    note sec = section_wrapped [OF b kl far]
    have "sr_off ?s < sr_limit ?s"
      using sec(2) p ol kl by simp
    then have "ReadFull ?s (replicate ?n 0) = ((0, Some ErrNegativeOffset), replicate ?n 0)"
      using ReadFull_negative [OF sec(1), of "replicate ?n 0"] p by simp
    then show ?thesis
      using c0 by simp
  qed
  show ?thesis
    using c0 ol c1 fits wrapped by blast
qed

theorem load_uncompressed_witness:
  "\<not> isCompressed key_plain
   \<and> sint (objlen key_plain) = 6
   \<and> load zlib_broken [] key_plain = Inr [4,5,6,7,8,9]
   \<and> load zlib_broken [] key_lost = Inl EOF
   \<and> \<not> isCompressed key_far
   \<and> sint (seekkey key_far) = 2 ^ 63 - 1
   \<and> load zlib_broken [] key_far = Inl ErrNegativeOffset"
  using load_uncompressed [of key_plain zlib_broken] load_uncompressed [of key_lost zlib_broken]
    load_uncompressed [of key_far zlib_broken]
  by (simp add: key_eval io_eval)

text \<open>
  The claim C5 as stated fails on \<open>key_plain\<close>: the key is not compressed, \<open>bytes\<close> is 10
  and the header ends at offset 4 of a file of 10 bytes, which holds no 10 bytes after
  offset 4; \<open>load\<close> succeeds and returns the 6 bytes (\<open>objlen\<close>) from offset 4.
\<close>

theorem load_reads_objlen_counterexample:
  "\<not> isCompressed key_plain
   \<and> sint (bytes key_plain) = 10
   \<and> sint (seekkey key_plain + scast (keylen key_plain)) = 4
   \<and> length (content (f key_plain)) = 10
   \<and> load zlib_broken [] key_plain = Inr [4,5,6,7,8,9]
   \<and> length [4,5,6,7,8,9::byte] \<noteq> nat (sint (bytes key_plain))"
  by (simp add: key_eval io_eval)

section \<open>Properties of object resolution\<close>

text \<open>
  C8. After a call of \<open>Object\<close> that succeeds, the key holds the object it returned, and
  every later call on that key returns the same object and the same key whatever the
  registry, the decompressor and the file are: nothing is loaded or decoded again.
\<close>

theorem Object_memoized:
  assumes "Object rt z k = (Returned (Inr ob), k')"
  shows "obj k' = Some ob
       \<and> Object rt' z' k' = (Returned (Inr ob), k')
       \<and> Object rt' z' (k'\<lparr>f := fl\<rparr>) = (Returned (Inr ob), k'\<lparr>f := fl\<rparr>)"
proof -
  have "obj k' = Some ob"
    using assms
    by (auto simp: Object_def Let_def split: option.splits sum.splits prod.splits if_splits)
  then show ?thesis
    by (simp add: Object_def)
qed

theorem Object_memoized_witness:
  "Object rt_T zlib_broken key_plain = (Returned (Inr 4), key_plain\<lparr>obj := Some 4\<rparr>)
   \<and> Object rt_none zlib_broken (key_plain\<lparr>obj := Some 4\<rparr>)
       = (Returned (Inr 4), key_plain\<lparr>obj := Some 4\<rparr>)
   \<and> Object rt_none zlib_broken (key_plain\<lparr>obj := Some 4, f := \<lparr>content = []\<rparr>\<rparr>)
       = (Returned (Inr 4), key_plain\<lparr>obj := Some 4, f := \<lparr>content = []\<rparr>\<rparr>)"
proof -
  have h: "Object rt_T zlib_broken key_plain = (Returned (Inr 4), key_plain\<lparr>obj := Some 4\<rparr>)"
    by (simp add: key_eval io_eval obj_eval)
  show ?thesis
    using h Object_memoized [OF h, of rt_none zlib_broken "\<lparr>content = []\<rparr>"] by simp
qed

text \<open>
  C9, as the code has it. For a key without cached object whose class has no entry in the
  registry, \<open>Object\<close> returns an error as a value and the key as it was, so the cached
  object stays unset, the other fields are unchanged and a later call works on the same
  key. The error is the unknown-class error when the payload loads; when the payload does
  not load, it is the error of the load, which comes before the lookup.
\<close>

theorem Object_unknown_class:
  assumes "obj k = None" and "Factory_Get rt (Class k) = None"
  shows "(\<forall>buf. Bytes z k = Inr buf \<longrightarrow>
            Object rt z k = (Returned (Inl (ErrNoFactory (Class k) (Name k))), k))
       \<and> (\<forall>e. Bytes z k = Inl e \<longrightarrow> Object rt z k = (Returned (Inl e), k))
       \<and> snd (Object rt z k) = k
       \<and> (\<exists>e. fst (Object rt z k) = Returned (Inl e))"
  using assms by (cases "Bytes z k") (simp_all add: Object_def)

theorem Object_unknown_class_witness:
  "obj key_plain = None \<and> Factory_Get rt_none (Class key_plain) = None
   \<and> Bytes zlib_broken key_plain = Inr [4,5,6,7,8,9]
   \<and> Object rt_none zlib_broken key_plain
       = (Returned (Inl (ErrNoFactory ''T'' ''n'')), key_plain)
   \<and> Object rt_T zlib_broken (snd (Object rt_none zlib_broken key_plain))
       = (Returned (Inr 4), key_plain\<lparr>obj := Some 4\<rparr>)"
proof -
  have h1: "obj key_plain = None"
    by (simp add: key_eval)
  have h2: "Factory_Get rt_none (Class key_plain) = None"
    by (simp add: key_eval)
  have b: "Bytes zlib_broken key_plain = Inr [4,5,6,7,8,9]"
    by (simp add: key_eval io_eval)
  have o: "Object rt_T zlib_broken key_plain = (Returned (Inr 4), key_plain\<lparr>obj := Some 4\<rparr>)"
    by (simp add: key_eval io_eval obj_eval)
  have c: "Class key_plain = ''T''" "Name key_plain = ''n''"
    by (simp_all add: key_eval Class_def Name_def)
  show ?thesis
    using h1 h2 b o c Object_unknown_class [OF h1 h2, of zlib_broken] by simp
qed

text \<open>
  The claim C9 as stated fails on \<open>key_lost\<close>: its class \<open>U\<close> has no entry in the registry
  and no object is cached, but its file is empty, and \<open>Object\<close> returns \<open>EOF\<close>, the error
  of the load, not the unknown-class error.
\<close>

theorem Object_load_error_counterexample:
  "obj key_lost = None \<and> Factory_Get rt_T (Class key_lost) = None
   \<and> Object rt_T zlib_broken key_lost = (Returned (Inl EOF), key_lost)
   \<and> EOF \<noteq> ErrNoFactory (Class key_lost) (Name key_lost)"
  by (simp add: key_eval io_eval obj_eval)

section \<open>Errors and panics\<close>















end
